theory Spec2Isabelle
  imports Main
begin

section \<open>Python values, exceptions and output\<close>

text \<open>
  The decorators of \<^verbatim>\<open>decorator.py\<close> wrap a function, count the calls made through the
  wrapper, log them with \<^verbatim>\<open>print\<close> and, for the limiting ones, raise \<^verbatim>\<open>ValueError\<close> once
  the count passes \<^verbatim>\<open>max_hits\<close>. The model below keeps Python's values abstract enough to
  run: the values that reach \<^verbatim>\<open>print\<close> are \<^verbatim>\<open>None\<close>, booleans, integers (unbounded),
  strings and references to functions (shown by their name); an instance of a class of
  the walkthrough is shown by the name of its class.
\<close>

datatype pyval = VNone | VBool bool | VInt int | VStr string | VFunc string | VInstance string

text \<open>Keyword arguments \<^verbatim>\<open>**kwargs\<close>: a dictionary in insertion order.\<close>

type_synonym kwargs = "(string \<times> pyval) list"

text \<open>
  Exceptions. \<^verbatim>\<open>ValueError\<close> carries its message; \<^verbatim>\<open>TypeError\<close> and \<^verbatim>\<open>AttributeError\<close>
  carry the name of the keyword, operator or attribute at fault; \<^verbatim>\<open>Exception\<close> stands
  for everything else a wrapped function may raise.
\<close>

datatype exn = ValueError string | TypeError string | AttributeError string | Exception string

text \<open>
  What a call leaves behind: a line written by \<^verbatim>\<open>print\<close> (the objects printed, the
  separator and the line end in force), and the entry into a wrapped function with the
  arguments it received.
\<close>

datatype event =
    Printed "pyval list" string string
  | Invoked string "pyval list" kwargs

fun is_Invoked :: "event \<Rightarrow> bool" where
  "is_Invoked (Invoked _ _ _) = True"
| "is_Invoked (Printed _ _ _) = False"

fun is_Printed :: "event \<Rightarrow> bool" where
  "is_Printed (Printed _ _ _) = True"
| "is_Printed (Invoked _ _ _) = False"

subsection \<open>\<^verbatim>\<open>str\<close> of an integer, as the f-string of the error message renders it\<close>

definition digit_char :: "nat \<Rightarrow> char" where
  "digit_char d = ''0123456789'' ! (d mod 10)"

fun str_nat :: "nat \<Rightarrow> string" where
  "str_nat n = (if n < 10 then [digit_char n] else str_nat (n div 10) @ [digit_char (n mod 10)])"

declare str_nat.simps [simp del]

definition str_int :: "int \<Rightarrow> string" where
  "str_int i = (if i < 0 then CHR ''-'' # str_nat (nat (- i)) else str_nat (nat i))"

subsection \<open>The builtin \<^verbatim>\<open>print(*objects, sep=' ', end='\n', file=None, flush=False)\<close>\<close>

text \<open>
  \<^verbatim>\<open>print\<close> accepts four keywords and raises \<^verbatim>\<open>TypeError\<close> for any other; \<^verbatim>\<open>sep\<close> and
  \<^verbatim>\<open>end\<close> must be \<^verbatim>\<open>None\<close> or a string; \<^verbatim>\<open>file\<close> must be \<^verbatim>\<open>None\<close> (standard output)
  or an object with a \<^verbatim>\<open>write\<close> method, which no value of \<^typ>\<open>pyval\<close> has;
  \<^verbatim>\<open>flush\<close> is only tested for truth.
\<close>

definition print_keywords :: "string list" where
  "print_keywords = [''sep'', ''end'', ''file'', ''flush'']"

definition print_opt :: "string \<Rightarrow> string \<Rightarrow> kwargs \<Rightarrow> exn + string" where
  "print_opt key dflt kw =
     (case map_of kw key of
        None \<Rightarrow> Inr dflt
      | Some VNone \<Rightarrow> Inr dflt
      | Some (VStr s) \<Rightarrow> Inr s
      | Some _ \<Rightarrow> Inl (TypeError key))"

definition py_print :: "pyval list \<Rightarrow> kwargs \<Rightarrow> exn + event list" where
  "py_print objects kw =
     (case find (\<lambda>k. \<not> List.member print_keywords k) (map fst kw) of
        Some k \<Rightarrow> Inl (TypeError k)
      | None \<Rightarrow>
          (case print_opt ''sep'' '' '' kw of
             Inl e \<Rightarrow> Inl e
           | Inr sep \<Rightarrow>
               (case print_opt ''end'' [CHR 0x0A] kw of
                  Inl e \<Rightarrow> Inl e
                | Inr en \<Rightarrow>
                    (case map_of kw ''file'' of
                       None \<Rightarrow> Inr [Printed objects sep en]
                     | Some VNone \<Rightarrow> Inr [Printed objects sep en]
                     | Some _ \<Rightarrow> Inl (AttributeError ''write'')))))"

section \<open>Wrapped functions\<close>

text \<open>
  A Python function as the decorators see it: its \<^verbatim>\<open>__name__\<close>, its \<^verbatim>\<open>__doc__\<close>
  (\<^verbatim>\<open>None\<close> when it has no docstring) and what a call with positional and keyword
  arguments returns or raises. A wrapped function is a function of its arguments: it
  does not reach back into the wrapper that holds it.
\<close>

record py_function =
  fn_name :: string
  fn_doc :: "string option"
  fn_body :: "pyval list \<Rightarrow> kwargs \<Rightarrow> exn + pyval"

type_synonym 's outcome = "(exn + pyval) \<times> 's \<times> event list"

definition limit_message :: "string \<Rightarrow> int \<Rightarrow> string" where
  "limit_message name max_hits =
     ''function '' @ name @ '' number of call limit '' @ str_int max_hits @ '' has been exceeded''"

section \<open>\<^verbatim>\<open>class CountCalls\<close>\<close>

text \<open>
  Fields: \<open>cc_name\<close> and \<open>cc_doc\<close> are the \<^verbatim>\<open>__name__\<close> and \<^verbatim>\<open>__doc__\<close> that
  \<^verbatim>\<open>functools.update_wrapper(self, func)\<close> copies from the function; \<open>cc_func\<close> is
  \<^verbatim>\<open>self.func\<close>; \<open>cc_num_calls\<close> is \<^verbatim>\<open>self.num_calls\<close>.
\<close>

record CountCalls =
  cc_name :: string
  cc_doc :: "string option"
  cc_func :: py_function
  cc_num_calls :: int

definition CountCalls_init :: "py_function \<Rightarrow> CountCalls" where
  "CountCalls_init func =
     \<lparr>cc_name = fn_name func, cc_doc = fn_doc func, cc_func = func, cc_num_calls = 0\<rparr>"

definition CountCalls_call :: "CountCalls \<Rightarrow> pyval list \<Rightarrow> kwargs \<Rightarrow> CountCalls outcome" where
  "CountCalls_call self0 args kwargs =
     (let self = self0\<lparr>cc_num_calls := cc_num_calls self0 + 1\<rparr> in
      case py_print ([VStr ''Calling:'', VStr (fn_name (cc_func self)), VStr ''#call:'',
                      VInt (cc_num_calls self), VStr ''positional-arguments:''] @ args @
                     [VStr ''keyword-arguments:'']) kwargs of
        Inl e \<Rightarrow> (Inl e, self, [])
      | Inr before_line \<Rightarrow>
          (let entered = before_line @ [Invoked (fn_name (cc_func self)) args kwargs] in
           case fn_body (cc_func self) args kwargs of
             Inl e \<Rightarrow> (Inl e, self, entered)
           | Inr ret_val \<Rightarrow>
               (case py_print [VStr ''Return from:'', VStr (fn_name (cc_func self)), VStr ''#call:'',
                               VInt (cc_num_calls self), VStr ''return-value:'', ret_val] [] of
                  Inl e \<Rightarrow> (Inl e, self, entered)
                | Inr after_line \<Rightarrow> (Inr ret_val, self, entered @ after_line))))"

section \<open>\<^verbatim>\<open>class _LimitCalls\<close>\<close>

text \<open>
  Fields: \<open>lc_name\<close>, \<open>lc_doc\<close> from \<^verbatim>\<open>functools.update_wrapper(self, function)\<close>;
  \<open>lc_function\<close>, \<open>lc_max_hits\<close>, \<open>lc_log_calls\<close>, \<open>lc_num_calls\<close> are
  \<^verbatim>\<open>self.function\<close>, \<^verbatim>\<open>self.max_hits\<close>, \<^verbatim>\<open>self.log_calls\<close>, \<^verbatim>\<open>self.num_calls\<close>.
\<close>

record LimitCalls_obj =
  lc_name :: string
  lc_doc :: "string option"
  lc_function :: py_function
  lc_max_hits :: int
  lc_log_calls :: bool
  lc_num_calls :: int

definition LimitCalls_init :: "py_function \<Rightarrow> int \<Rightarrow> bool \<Rightarrow> LimitCalls_obj" where
  "LimitCalls_init func max_hits log_calls =
     \<lparr>lc_name = fn_name func, lc_doc = fn_doc func, lc_function = func,
      lc_max_hits = max_hits, lc_log_calls = log_calls, lc_num_calls = 0\<rparr>"

definition LimitCalls_call :: "LimitCalls_obj \<Rightarrow> pyval list \<Rightarrow> kwargs \<Rightarrow> LimitCalls_obj outcome" where
  "LimitCalls_call self0 args kwargs =
     (let self = self0\<lparr>lc_num_calls := lc_num_calls self0 + 1\<rparr> in
      if lc_num_calls self > lc_max_hits self then
        (Inl (ValueError (limit_message (fn_name (lc_function self)) (lc_max_hits self))), self, [])
      else
        (case (if lc_log_calls self
               then py_print ([VStr ''Calling:'', VStr (fn_name (lc_function self)), VStr ''#call:'',
                               VInt (lc_num_calls self), VStr ''positional-arguments:''] @ args @
                              [VStr ''keyword-arguments:'']) kwargs
               else Inr []) of
           Inl e \<Rightarrow> (Inl e, self, [])
         | Inr before_line \<Rightarrow>
             (let f = lc_function self;
                  entered = before_line @ [Invoked (fn_name f) args kwargs] in
              case fn_body f args kwargs of
                Inl e \<Rightarrow> (Inl e, self, entered)
              | Inr val \<Rightarrow>
                  (case (if lc_log_calls self
                         then py_print [VStr ''Return from:'', VStr (fn_name (lc_function self)),
                                        VStr ''#call:'', VInt (lc_num_calls self),
                                        VStr ''return-value:'', val] []
                         else Inr []) of
                     Inl e \<Rightarrow> (Inl e, self, entered)
                   | Inr after_line \<Rightarrow> (Inr val, self, entered @ after_line)))))"

section \<open>The closure \<^verbatim>\<open>wrapper\<close> of \<^verbatim>\<open>LimitCalls2\<close>\<close>

text \<open>
  The function object \<^verbatim>\<open>wrapper\<close> that \<^verbatim>\<open>forward_func_call\<close> returns. \<open>w_name\<close> and
  \<open>w_doc\<close> are set by \<^verbatim>\<open>functools.wraps(func)\<close>; \<open>w_num_calls\<close> is the attribute
  \<^verbatim>\<open>wrapper.num_calls\<close>; \<open>w_func\<close>, \<open>w_max_hits\<close> and \<open>w_log_calls\<close> are the captured
  variables \<^verbatim>\<open>func\<close>, \<^verbatim>\<open>max_hits\<close> and \<^verbatim>\<open>log_calls\<close> of the enclosing calls.
\<close>

record wrapper2 =
  w_name :: string
  w_doc :: "string option"
  w_func :: py_function
  w_max_hits :: int
  w_log_calls :: bool
  w_num_calls :: int

definition wrapper2_init :: "int \<Rightarrow> bool \<Rightarrow> py_function \<Rightarrow> wrapper2" where
  "wrapper2_init max_hits log_calls func =
     \<lparr>w_name = fn_name func, w_doc = fn_doc func, w_func = func,
      w_max_hits = max_hits, w_log_calls = log_calls, w_num_calls = 0\<rparr>"

definition wrapper2_call :: "wrapper2 \<Rightarrow> pyval list \<Rightarrow> kwargs \<Rightarrow> wrapper2 outcome" where
  "wrapper2_call wrapper0 args kwargs =
     (let wrapper = wrapper0\<lparr>w_num_calls := w_num_calls wrapper0 + 1\<rparr> in
      if w_num_calls wrapper > w_max_hits wrapper then
        (Inl (ValueError (limit_message (fn_name (w_func wrapper)) (w_max_hits wrapper))), wrapper, [])
      else
        (case (if w_log_calls wrapper
               then py_print ([VStr ''Calling:'', VStr (fn_name (w_func wrapper)), VStr ''#call:'',
                               VInt (w_num_calls wrapper), VStr ''positional-arguments:''] @ args @
                              [VStr ''keyword-arguments:'']) kwargs
               else Inr []) of
           Inl e \<Rightarrow> (Inl e, wrapper, [])
         | Inr before_line \<Rightarrow>
             (let entered = before_line @ [Invoked (fn_name (w_func wrapper)) args kwargs] in
              case fn_body (w_func wrapper) args kwargs of
                Inl e \<Rightarrow> (Inl e, wrapper, entered)
              | Inr val \<Rightarrow>
                  (case (if w_log_calls wrapper
                         then py_print [VStr ''Return from:'', VStr (fn_name (w_func wrapper)),
                                        VStr ''#call:'', VInt (w_num_calls wrapper),
                                        VStr ''return-value:'', val] []
                         else Inr []) of
                     Inl e \<Rightarrow> (Inl e, wrapper, entered)
                   | Inr after_line \<Rightarrow> (Inr val, wrapper, entered @ after_line)))))"

section \<open>Objects in the store\<close>

text \<open>
  Wrappers are mutable objects reached through references, so two wrappers can be told
  apart and a call changes exactly one of them. The store is a list of objects, a
  reference is an index into it, and a new object goes to the end. \<open>stdout\<close> collects
  what the program has printed and which wrapped functions it has entered.
\<close>

datatype obj = CountCallsObj CountCalls | LimitCallsObj LimitCalls_obj | WrapperObj wrapper2

record world =
  heap :: "obj list"
  stdout :: "event list"

definition alloc :: "obj \<Rightarrow> world \<Rightarrow> nat \<times> world" where
  "alloc ob w = (length (heap w), w\<lparr>heap := heap w @ [ob]\<rparr>)"

definition print_line :: "pyval list \<Rightarrow> world \<Rightarrow> world" where
  "print_line objects w = w\<lparr>stdout := stdout w @ [Printed objects '' '' [CHR 0x0A]]\<rparr>"

fun show_function :: "py_function option \<Rightarrow> pyval" where
  "show_function None = VNone"
| "show_function (Some f) = VFunc (fn_name f)"

text \<open>The attributes a wrapper exposes: \<^verbatim>\<open>__name__\<close>, \<^verbatim>\<open>__doc__\<close> and \<^verbatim>\<open>num_calls\<close>.\<close>

fun obj_name :: "obj \<Rightarrow> string" where
  "obj_name (CountCallsObj self) = cc_name self"
| "obj_name (LimitCallsObj self) = lc_name self"
| "obj_name (WrapperObj wrapper) = w_name wrapper"

fun obj_doc :: "obj \<Rightarrow> string option" where
  "obj_doc (CountCallsObj self) = cc_doc self"
| "obj_doc (LimitCallsObj self) = lc_doc self"
| "obj_doc (WrapperObj wrapper) = w_doc wrapper"

fun obj_num_calls :: "obj \<Rightarrow> int" where
  "obj_num_calls (CountCallsObj self) = cc_num_calls self"
| "obj_num_calls (LimitCallsObj self) = lc_num_calls self"
| "obj_num_calls (WrapperObj wrapper) = w_num_calls wrapper"

text \<open>Calling an object runs the \<^verbatim>\<open>__call__\<close> of its class, or the closure itself.\<close>

fun obj_call :: "obj \<Rightarrow> pyval list \<Rightarrow> kwargs \<Rightarrow> obj outcome" where
  "obj_call (CountCallsObj self) args kwargs =
     (case CountCalls_call self args kwargs of (r, self', tr) \<Rightarrow> (r, CountCallsObj self', tr))"
| "obj_call (LimitCallsObj self) args kwargs =
     (case LimitCalls_call self args kwargs of (r, self', tr) \<Rightarrow> (r, LimitCallsObj self', tr))"
| "obj_call (WrapperObj wrapper) args kwargs =
     (case wrapper2_call wrapper args kwargs of (r, wrapper', tr) \<Rightarrow> (r, WrapperObj wrapper', tr))"

text \<open>
  A call through a reference. Python has no dangling references; the model answers one
  with an exception and leaves the store alone.
\<close>

definition invoke :: "nat \<Rightarrow> pyval list \<Rightarrow> kwargs \<Rightarrow> world \<Rightarrow> (exn + pyval) \<times> world" where
  "invoke a args kwargs w =
     (if a < length (heap w) then
        (case obj_call (heap w ! a) args kwargs of
           (r, ob, tr) \<Rightarrow> (r, w\<lparr>heap := (heap w)[a := ob], stdout := stdout w @ tr\<rparr>))
      else (Inl (Exception ''dangling reference''), w))"

definition num_calls :: "world \<Rightarrow> nat \<Rightarrow> int" where
  "num_calls w a = obj_num_calls (heap w ! a)"


section \<open>The decorator factories\<close>

text \<open>
  \<^verbatim>\<open>CountCalls(func)\<close> and \<^verbatim>\<open>_LimitCalls(function, max_hits, log_calls)\<close> create an
  instance and run \<^verbatim>\<open>__init__\<close> on it.
\<close>

definition new_CountCalls :: "py_function \<Rightarrow> world \<Rightarrow> nat \<times> world" where
  "new_CountCalls func w = alloc (CountCallsObj (CountCalls_init func)) w"

definition new_LimitCalls :: "py_function \<Rightarrow> int \<Rightarrow> bool \<Rightarrow> world \<Rightarrow> nat \<times> world" where
  "new_LimitCalls func max_hits log_calls w =
     alloc (LimitCallsObj (LimitCalls_init func max_hits log_calls)) w"

text \<open>
  A factory returns either a wrapper (a reference) or a decorator still waiting for
  its function. The defaults of both factories are \<^verbatim>\<open>max_hits=3\<close>, \<^verbatim>\<open>log_calls=False\<close>.
\<close>

datatype decorated = Ref nat | Decorator "py_function \<Rightarrow> world \<Rightarrow> nat \<times> world"

definition default_max_hits :: int where
  "default_max_hits = 3"

definition default_log_calls :: bool where
  "default_log_calls = False"

text \<open>
  \<^verbatim>\<open>def LimitCalls(function=None, max_hits=3, log_calls=False)\<close>. The test
  \<^verbatim>\<open>if function:\<close> is the test for \<^verbatim>\<open>None\<close>, a function being true.
\<close>

definition LimitCalls :: "py_function option \<Rightarrow> int \<Rightarrow> bool \<Rightarrow> world \<Rightarrow> decorated \<times> world" where
  "LimitCalls function max_hits log_calls w0 =
     (let w = print_line [VStr ''LimitCalls function:'', show_function function,
                          VStr ''max_hits:'', VInt max_hits,
                          VStr ''log_calls:'', VBool log_calls] w0 in
      case function of
        Some f \<Rightarrow> (case new_LimitCalls f max_hits log_calls w of (a, w') \<Rightarrow> (Ref a, w'))
      | None \<Rightarrow> (Decorator (\<lambda>f. new_LimitCalls f max_hits log_calls), w))"

text \<open>\<^verbatim>\<open>def LimitCalls2(_func = None, *, max_hits = 3, log_calls = False)\<close> and its nested
  \<^verbatim>\<open>forward_func_call(func)\<close>, which builds the closure and sets its counter.\<close>

definition forward_func_call :: "int \<Rightarrow> bool \<Rightarrow> py_function \<Rightarrow> world \<Rightarrow> nat \<times> world" where
  "forward_func_call max_hits log_calls func w0 =
     (let w = print_line [VStr ''LimitCalls in nested forward_func_call. func:'',
                          VFunc (fn_name func)] w0 in
      alloc (WrapperObj (wrapper2_init max_hits log_calls func)) w)"

definition LimitCalls2 :: "py_function option \<Rightarrow> int \<Rightarrow> bool \<Rightarrow> world \<Rightarrow> decorated \<times> world" where
  "LimitCalls2 func max_hits log_calls w0 =
     (let w = print_line [VStr ''LimitCalls2 _func:'', show_function func,
                          VStr ''max_hits:'', VInt max_hits,
                          VStr ''Log_calls:'', VBool log_calls] w0 in
      case func of
        None \<Rightarrow> (Decorator (forward_func_call max_hits log_calls), w)
      | Some f \<Rightarrow> (case forward_func_call max_hits log_calls f w of (a, w') \<Rightarrow> (Ref a, w')))"

section \<open>Sequences of calls\<close>

text \<open>
  A client that makes one call after another and keeps every outcome, whether a value
  or an exception, as the loops of the walkthrough do with \<^verbatim>\<open>try\<close>/\<^verbatim>\<open>except\<close>.
\<close>

fun run :: "('s \<Rightarrow> pyval list \<Rightarrow> kwargs \<Rightarrow> 's outcome) \<Rightarrow> 's \<Rightarrow> (pyval list \<times> kwargs) list
              \<Rightarrow> (exn + pyval) list \<times> 's \<times> event list" where
  "run call s [] = ([], s, [])"
| "run call s ((args, kwargs) # cs) =
     (case call s args kwargs of
        (r, s1, tr1) \<Rightarrow> (case run call s1 cs of (rs, s2, tr2) \<Rightarrow> (r # rs, s2, tr1 @ tr2)))"

text \<open>The same client with several wrappers at hand: each call names its wrapper.\<close>

fun invokes :: "(nat \<times> pyval list \<times> kwargs) list \<Rightarrow> world \<Rightarrow> (exn + pyval) list \<times> world" where
  "invokes [] w = ([], w)"
| "invokes ((a, args, kwargs) # cs) w =
     (case invoke a args kwargs w of
        (r, w1) \<Rightarrow> (case invokes cs w1 of (rs, w2) \<Rightarrow> (r # rs, w2)))"

definition calls_to :: "nat \<Rightarrow> (nat \<times> pyval list \<times> kwargs) list \<Rightarrow> nat" where
  "calls_to a cs = length (filter (\<lambda>c. fst c = a) cs)"

definition on :: "nat \<Rightarrow> (pyval list \<times> kwargs) list \<Rightarrow> (nat \<times> pyval list \<times> kwargs) list" where
  "on a calls = map (Pair a) calls"

text \<open>The parts of an outcome.\<close>

definition result :: "'r \<times> 's \<times> event list \<Rightarrow> 'r" where
  "result out = fst out"

definition after :: "'r \<times> 's \<times> event list \<Rightarrow> 's" where
  "after out = fst (snd out)"

definition trace :: "'r \<times> 's \<times> event list \<Rightarrow> event list" where
  "trace out = snd (snd out)"

text \<open>How often the wrapped function was entered, and the lines printed.\<close>

definition invocations :: "event list \<Rightarrow> nat" where
  "invocations tr = length (filter is_Invoked tr)"

definition printed :: "event list \<Rightarrow> event list" where
  "printed tr = filter is_Printed tr"

text \<open>
  A call is rejected when the wrapper itself raises \<^verbatim>\<open>ValueError\<close>: the exception comes
  out and the wrapped function was not entered. (A \<^verbatim>\<open>ValueError\<close> raised inside the
  wrapped function comes out of a call that did enter it.)
\<close>

fun is_ValueError :: "exn + pyval \<Rightarrow> bool" where
  "is_ValueError (Inl (ValueError msg)) = True"
| "is_ValueError _ = False"

definition rejected :: "'s outcome \<Rightarrow> bool" where
  "rejected out = (is_ValueError (result out) \<and> invocations (trace out) = 0)"

section \<open>Functions of the walkthrough\<close>

text \<open>Binding the arguments of a call to the single parameter \<open>p\<close> of a \<^verbatim>\<open>def\<close>.\<close>

fun bind1 :: "string \<Rightarrow> pyval list \<Rightarrow> kwargs \<Rightarrow> exn + pyval" where
  "bind1 p [x] [] = Inr x"
| "bind1 p [] [(k, x)] = (if k = p then Inr x else Inl (TypeError k))"
| "bind1 p args kwargs = Inl (TypeError p)"

fun as_int :: "pyval \<Rightarrow> exn + int" where
  "as_int (VInt n) = Inr n"
| "as_int (VBool b) = Inr (if b then 1 else 0)"
| "as_int v = Inl (TypeError ''unsupported operand'')"

text \<open>\<^verbatim>\<open>def square_me(arg_num): ''' return a square of the argument '''; return arg_num * arg_num\<close>\<close>

definition square_me :: py_function where
  "square_me =
     \<lparr>fn_name = ''square_me'', fn_doc = Some '' return a square of the argument '',
      fn_body = (\<lambda>args kwargs.
        case bind1 ''arg_num'' args kwargs of
          Inl e \<Rightarrow> Inl e
        | Inr arg_num \<Rightarrow> (case as_int arg_num of Inl e \<Rightarrow> Inl e | Inr n \<Rightarrow> Inr (VInt (n * n))))\<rparr>"

text \<open>\<^verbatim>\<open>def inc_me(number_argument): return number_argument + 1\<close>\<close>

definition inc_me :: py_function where
  "inc_me =
     \<lparr>fn_name = ''inc_me'', fn_doc = None,
      fn_body = (\<lambda>args kwargs.
        case bind1 ''number_argument'' args kwargs of
          Inl e \<Rightarrow> Inl e
        | Inr number_argument \<Rightarrow>
            (case as_int number_argument of Inl e \<Rightarrow> Inl e | Inr n \<Rightarrow> Inr (VInt (n + 1))))\<rparr>"

text \<open>A function whose parameter has the name of a keyword of \<^verbatim>\<open>print\<close>:
  \<^verbatim>\<open>def line_end(end): return end\<close>.\<close>

definition line_end :: py_function where
  "line_end = \<lparr>fn_name = ''line_end'', fn_doc = None, fn_body = bind1 ''end''\<rparr>"


text \<open>What a wrapper looks like right after it was built around \<open>f\<close>.\<close>

definition fresh_for :: "py_function \<Rightarrow> obj \<Rightarrow> bool" where
  "fresh_for f ob = (obj_name ob = fn_name f \<and> obj_doc ob = fn_doc f \<and> obj_num_calls ob = 0)"

definition empty_world :: world where
  "empty_world = \<lparr>heap = [], stdout = []\<rparr>"

section \<open>One call\<close>

text \<open>What \<^verbatim>\<open>print\<close> can do, and what one call of each wrapper does to the wrapper.\<close>

lemma py_print_no_keywords: "py_print objects [] = Inr [Printed objects '' '' [CHR 0x0A]]"
  by (simp add: py_print_def print_opt_def)

lemma py_print_one_line:
  "py_print objects kw = Inr tr \<Longrightarrow> \<exists>sep en. tr = [Printed objects sep en]"
  by (auto simp: py_print_def split: option.splits sum.splits pyval.splits)

lemma py_print_error:
  "py_print objects kw = Inl e \<Longrightarrow> \<not> is_ValueError (Inl e)"
  by (auto simp: py_print_def print_opt_def split: option.splits sum.splits pyval.splits)

lemma invocations_simps [simp]:
  "invocations [] = 0"
  "invocations (Invoked n a k # tr) = Suc (invocations tr)"
  "invocations (Printed os s e # tr) = invocations tr"
  "invocations (tr1 @ tr2) = invocations tr1 + invocations tr2"
  by (simp_all add: invocations_def)

lemma outcome_parts [simp]:
  "result (r, s, tr) = r" "after (r, s, tr) = s" "trace (r, s, tr) = tr"
  by (simp_all add: result_def after_def trace_def)

lemma LimitCalls_call_after:
  "after (LimitCalls_call s args kw) = s\<lparr>lc_num_calls := lc_num_calls s + 1\<rparr>"
  by (simp add: LimitCalls_call_def Let_def py_print_no_keywords split: sum.splits)

lemma wrapper2_call_after:
  "after (wrapper2_call s args kw) = s\<lparr>w_num_calls := w_num_calls s + 1\<rparr>"
  by (simp add: wrapper2_call_def Let_def py_print_no_keywords split: sum.splits)

lemma CountCalls_call_after:
  "after (CountCalls_call s args kw) = s\<lparr>cc_num_calls := cc_num_calls s + 1\<rparr>"
  by (simp add: CountCalls_call_def Let_def py_print_no_keywords split: sum.splits)

lemma LimitCalls_call_over:
  "lc_max_hits s < lc_num_calls s + 1 \<Longrightarrow>
   LimitCalls_call s args kw =
     (Inl (ValueError (limit_message (fn_name (lc_function s)) (lc_max_hits s))),
      s\<lparr>lc_num_calls := lc_num_calls s + 1\<rparr>, [])"
  by (simp add: LimitCalls_call_def Let_def)

lemma wrapper2_call_over:
  "w_max_hits s < w_num_calls s + 1 \<Longrightarrow>
   wrapper2_call s args kw =
     (Inl (ValueError (limit_message (fn_name (w_func s)) (w_max_hits s))),
      s\<lparr>w_num_calls := w_num_calls s + 1\<rparr>, [])"
  by (simp add: wrapper2_call_def Let_def)

lemma LimitCalls_call_within:
  "\<not> lc_max_hits s < lc_num_calls s + 1 \<Longrightarrow> \<not> rejected (LimitCalls_call s args kw)"
  by (auto simp: LimitCalls_call_def Let_def rejected_def py_print_no_keywords
           split: sum.splits if_splits dest!: py_print_one_line py_print_error)

lemma wrapper2_call_within:
  "\<not> w_max_hits s < w_num_calls s + 1 \<Longrightarrow> \<not> rejected (wrapper2_call s args kw)"
  by (auto simp: wrapper2_call_def Let_def rejected_def py_print_no_keywords
           split: sum.splits if_splits dest!: py_print_one_line py_print_error)

lemma LimitCalls_call_rejected_iff:
  "rejected (LimitCalls_call s args kw) \<longleftrightarrow> lc_max_hits s < lc_num_calls s + 1"
  using LimitCalls_call_within [of s args kw]
  by (cases "lc_max_hits s < lc_num_calls s + 1") (simp_all add: LimitCalls_call_over rejected_def)

lemma wrapper2_call_rejected_iff:
  "rejected (wrapper2_call s args kw) \<longleftrightarrow> w_max_hits s < w_num_calls s + 1"
  using wrapper2_call_within [of s args kw]
  by (cases "w_max_hits s < w_num_calls s + 1") (simp_all add: wrapper2_call_over rejected_def)

lemma LimitCalls_call_invocations:
  "invocations (trace (LimitCalls_call s args kw)) \<le> (if lc_max_hits s < lc_num_calls s + 1 then 0 else 1)"
  by (auto simp: LimitCalls_call_def Let_def py_print_no_keywords
           split: sum.splits if_splits dest!: py_print_one_line py_print_error)

lemma wrapper2_call_invocations:
  "invocations (trace (wrapper2_call s args kw)) \<le> (if w_max_hits s < w_num_calls s + 1 then 0 else 1)"
  by (auto simp: wrapper2_call_def Let_def py_print_no_keywords
           split: sum.splits if_splits dest!: py_print_one_line py_print_error)

section \<open>Sequences of calls on one wrapper\<close>

lemma run_Nil [simp]: "result (run call s []) = []" "after (run call s []) = s" "trace (run call s []) = []"
  by simp_all

lemma run_Cons:
  "run call s ((args, kw) # cs) =
     (result (call s args kw) # result (run call (after (call s args kw)) cs),
      after (run call (after (call s args kw)) cs),
      trace (call s args kw) @ trace (run call (after (call s args kw)) cs))"
  by (simp add: result_def after_def trace_def split: prod.splits)

declare run.simps(2) [simp del]

lemma run_append:
  "run call s (cs @ ds) =
     (result (run call s cs) @ result (run call (after (run call s cs)) ds),
      after (run call (after (run call s cs)) ds),
      trace (run call s cs) @ trace (run call (after (run call s cs)) ds))"
proof (induction cs arbitrary: s)
  case Nil
  show ?case by (simp add: result_def after_def trace_def)
next
  case (Cons c cs)
  obtain args kw where c: "c = (args, kw)" by (cases c)
  show ?case
    by (simp add: c run_Cons Cons.IH)
qed

lemma run_LimitCalls_after:
  "after (run LimitCalls_call s calls) = s\<lparr>lc_num_calls := lc_num_calls s + int (length calls)\<rparr>"
  by (induction calls arbitrary: s) (auto simp: run_Cons LimitCalls_call_after)

lemma run_wrapper2_after:
  "after (run wrapper2_call s calls) = s\<lparr>w_num_calls := w_num_calls s + int (length calls)\<rparr>"
  by (induction calls arbitrary: s) (auto simp: run_Cons wrapper2_call_after)


lemma run_LimitCalls_invocations:
  "invocations (trace (run LimitCalls_call s calls)) \<le> nat (lc_max_hits s - lc_num_calls s)"
proof (induction calls arbitrary: s)
  case Nil
  show ?case by simp
next
  case (Cons c cs)
  obtain args kw where c: "c = (args, kw)" by (cases c)
  let ?s1 = "s\<lparr>lc_num_calls := lc_num_calls s + 1\<rparr>"
  have rest: "invocations (trace (run LimitCalls_call ?s1 cs)) \<le> nat (lc_max_hits s - (lc_num_calls s + 1))"
    using Cons.IH [of ?s1] by simp
  have first: "invocations (trace (LimitCalls_call s args kw))
                 \<le> (if lc_max_hits s < lc_num_calls s + 1 then 0 else 1)"
    by (rule LimitCalls_call_invocations)
  show ?case
    using rest first by (simp add: c run_Cons LimitCalls_call_after split: if_splits)
qed

lemma run_wrapper2_invocations:
  "invocations (trace (run wrapper2_call s calls)) \<le> nat (w_max_hits s - w_num_calls s)"
proof (induction calls arbitrary: s)
  case Nil
  show ?case by simp
next
  case (Cons c cs)
  obtain args kw where c: "c = (args, kw)" by (cases c)
  let ?s1 = "s\<lparr>w_num_calls := w_num_calls s + 1\<rparr>"
  have rest: "invocations (trace (run wrapper2_call ?s1 cs)) \<le> nat (w_max_hits s - (w_num_calls s + 1))"
    using Cons.IH [of ?s1] by simp
  have first: "invocations (trace (wrapper2_call s args kw))
                 \<le> (if w_max_hits s < w_num_calls s + 1 then 0 else 1)"
    by (rule wrapper2_call_invocations)
  show ?case
    using rest first by (simp add: c run_Cons wrapper2_call_after split: if_splits)
qed



section \<open>Calls through the store\<close>

lemma obj_call_parts:
  "result (obj_call (CountCallsObj c) args kw) = result (CountCalls_call c args kw)"
  "after (obj_call (CountCallsObj c) args kw) = CountCallsObj (after (CountCalls_call c args kw))"
  "trace (obj_call (CountCallsObj c) args kw) = trace (CountCalls_call c args kw)"
  "result (obj_call (LimitCallsObj l) args kw) = result (LimitCalls_call l args kw)"
  "after (obj_call (LimitCallsObj l) args kw) = LimitCallsObj (after (LimitCalls_call l args kw))"
  "trace (obj_call (LimitCallsObj l) args kw) = trace (LimitCalls_call l args kw)"
  "result (obj_call (WrapperObj x) args kw) = result (wrapper2_call x args kw)"
  "after (obj_call (WrapperObj x) args kw) = WrapperObj (after (wrapper2_call x args kw))"
  "trace (obj_call (WrapperObj x) args kw) = trace (wrapper2_call x args kw)"
  by (simp_all add: result_def after_def trace_def split: prod.splits)

declare obj_call.simps [simp del]

lemma obj_call_num_calls:
  "obj_num_calls (after (obj_call ob args kw)) = obj_num_calls ob + 1"
  by (cases ob)
     (simp_all add: obj_call_parts CountCalls_call_after LimitCalls_call_after wrapper2_call_after)



lemma invoke_eq:
  "a < length (heap w) \<Longrightarrow>
   invoke a args kw w =
     (result (obj_call (heap w ! a) args kw),
      w\<lparr>heap := (heap w)[a := after (obj_call (heap w ! a) args kw)],
        stdout := stdout w @ trace (obj_call (heap w ! a) args kw)\<rparr>)"
  by (simp add: invoke_def result_def after_def trace_def split: prod.splits)

lemma invoke_length: "length (heap (snd (invoke a args kw w))) = length (heap w)"
  by (cases "a < length (heap w)") (simp_all add: invoke_eq, simp add: invoke_def)

lemma invoke_other: "a \<noteq> b \<Longrightarrow> heap (snd (invoke a args kw w)) ! b = heap w ! b"
  by (cases "a < length (heap w)") (simp_all add: invoke_eq, simp add: invoke_def)

lemma invoke_num_calls:
  "a < length (heap w) \<Longrightarrow> num_calls (snd (invoke a args kw w)) a = num_calls w a + 1"
  by (simp add: invoke_eq num_calls_def obj_call_num_calls)

lemma invokes_Cons:
  "invokes ((a, args, kw) # cs) w =
     (fst (invoke a args kw w) # fst (invokes cs (snd (invoke a args kw w))),
      snd (invokes cs (snd (invoke a args kw w))))"
  by (simp split: prod.splits)

declare invokes.simps(2) [simp del]

lemma invokes_num_calls:
  "b < length (heap w) \<Longrightarrow> num_calls (snd (invokes cs w)) b = num_calls w b + int (calls_to b cs)"
proof (induction cs arbitrary: w)
  case Nil
  show ?case by (simp add: calls_to_def)
next
  case (Cons c cs)
  obtain a args kw where c: "c = (a, args, kw)" by (cases c)
  let ?w1 = "snd (invoke a args kw w)"
  have len: "b < length (heap ?w1)" using Cons.prems by (simp add: invoke_length)
  have first: "num_calls ?w1 b = num_calls w b + (if a = b then 1 else 0)"
    using Cons.prems by (auto simp: invoke_num_calls) (simp add: num_calls_def invoke_other)
  show ?case
    using Cons.IH [OF len] first by (simp add: c invokes_Cons calls_to_def)
qed

lemma invokes_on_run:
  "a < length (heap w) \<Longrightarrow>
   invokes (on a calls) w =
     (result (run obj_call (heap w ! a) calls),
      w\<lparr>heap := (heap w)[a := after (run obj_call (heap w ! a) calls)],
        stdout := stdout w @ trace (run obj_call (heap w ! a) calls)\<rparr>)"
proof (induction calls arbitrary: w)
  case Nil
  then show ?case by (simp add: on_def)
next
  case (Cons c cs)
  obtain args kw where c: "c = (args, kw)" by (cases c)
  let ?w1 = "snd (invoke a args kw w)"
  have len: "a < length (heap ?w1)" using Cons.prems by (simp add: invoke_length)
  have IH: "invokes (on a cs) ?w1 =
     (result (run obj_call (heap ?w1 ! a) cs),
      ?w1\<lparr>heap := (heap ?w1)[a := after (run obj_call (heap ?w1 ! a) cs)],
        stdout := stdout ?w1 @ trace (run obj_call (heap ?w1 ! a) cs)\<rparr>)"
    by (rule Cons.IH [OF len])
  have on_Cons: "on a ((args, kw) # cs) = (a, args, kw) # on a cs" by (simp add: on_def)
  show ?case
    unfolding c using Cons.prems by (simp add: on_Cons invokes_Cons IH run_Cons) (simp add: invoke_eq)
qed

section \<open>What the factories build\<close>

lemma new_LimitCalls_eq:
  "new_LimitCalls f T lg w = (length (heap w), w\<lparr>heap := heap w @ [LimitCallsObj (LimitCalls_init f T lg)]\<rparr>)"
  by (simp add: new_LimitCalls_def alloc_def)

lemma print_line_heap [simp]: "heap (print_line objects w) = heap w"
  by (simp add: print_line_def)

lemma forward_func_call_eq:
  "\<exists>w'. forward_func_call T lg f w = (length (heap w), w')
      \<and> heap w' = heap w @ [WrapperObj (wrapper2_init T lg f)]"
  by (simp add: forward_func_call_def alloc_def print_line_def Let_def)

lemma LimitCalls2_Some:
  "\<exists>w'. LimitCalls2 (Some f) T lg w = (Ref (length (heap w)), w')
      \<and> heap w' = heap w @ [WrapperObj (wrapper2_init T lg f)]"
  by (simp add: LimitCalls2_def forward_func_call_def alloc_def print_line_def Let_def)

lemma LimitCalls2_None:
  "\<exists>w'. LimitCalls2 None T lg w = (Decorator (forward_func_call T lg), w') \<and> heap w' = heap w"
  by (simp add: LimitCalls2_def Let_def)

lemma LimitCalls_Some:
  "\<exists>w'. LimitCalls (Some f) T lg w = (Ref (length (heap w)), w')
      \<and> heap w' = heap w @ [LimitCallsObj (LimitCalls_init f T lg)]"
  by (simp add: LimitCalls_def new_LimitCalls_eq Let_def)

lemma LimitCalls_None:
  "\<exists>w'. LimitCalls None T lg w = (Decorator (\<lambda>f. new_LimitCalls f T lg), w') \<and> heap w' = heap w"
  by (simp add: LimitCalls_def Let_def)

lemma two_wrappers:
  assumes "heap w = h @ [oa, ob]"
  shows "num_calls (snd (invokes cs w)) (length h) = obj_num_calls oa + int (calls_to (length h) cs)"
    and "num_calls (snd (invokes cs w)) (Suc (length h)) = obj_num_calls ob + int (calls_to (Suc (length h)) cs)"
proof -
  have a: "length h < length (heap w)" and b: "Suc (length h) < length (heap w)"
    using assms by simp_all
  show "num_calls (snd (invokes cs w)) (length h) = obj_num_calls oa + int (calls_to (length h) cs)"
    using invokes_num_calls [OF a, of cs] assms by (simp add: num_calls_def)
  show "num_calls (snd (invokes cs w)) (Suc (length h)) = obj_num_calls ob + int (calls_to (Suc (length h)) cs)"
    using invokes_num_calls [OF b, of cs] assms by (simp add: num_calls_def nth_append)
qed

lemma same_object_same_results:
  assumes "a < length (heap w)" "b < length (heap v)" "heap w ! a = heap v ! b"
  shows "fst (invokes (on a calls) w) = fst (invokes (on b calls) v)"
  using assms by (simp add: invokes_on_run)

text \<open>
  Claim C5. Without a function, \<^verbatim>\<open>LimitCalls\<close> and \<^verbatim>\<open>LimitCalls2\<close> return a decorator
  that can be used again. Applied to two functions it builds two distinct wrappers;
  after any interleaving of calls the counter of each is the number of calls made to
  that one, so a call to one never moves the counter of the other. The wrapper it builds
  for \<open>f\<close> is the object the factory builds when given \<open>f\<close> at once, and answers
  every sequence of calls alike.
\<close>

theorem decorators_are_independent:
  "(case LimitCalls None T lg w0 of
      (Ref r, w1) \<Rightarrow> False
    | (Decorator deco, w1) \<Rightarrow>
        (case deco f w1 of (a, w2) \<Rightarrow>
           (case deco g w2 of (b, w3) \<Rightarrow>
              a \<noteq> b
            \<and> num_calls (snd (invokes cs w3)) a = int (calls_to a cs)
            \<and> num_calls (snd (invokes cs w3)) b = int (calls_to b cs)
            \<and> (case LimitCalls (Some f) T lg w0 of
                 (Ref a', w') \<Rightarrow> heap w' ! a' = heap w3 ! a
                               \<and> fst (invokes (on a' calls) w') = fst (invokes (on a calls) w3)
               | (Decorator d, w') \<Rightarrow> False))))
 \<and> (case LimitCalls2 None T lg w0 of
      (Ref r, w1) \<Rightarrow> False
    | (Decorator deco, w1) \<Rightarrow>
        (case deco f w1 of (a, w2) \<Rightarrow>
           (case deco g w2 of (b, w3) \<Rightarrow>
              a \<noteq> b
            \<and> num_calls (snd (invokes cs w3)) a = int (calls_to a cs)
            \<and> num_calls (snd (invokes cs w3)) b = int (calls_to b cs)
            \<and> (case LimitCalls2 (Some f) T lg w0 of
                 (Ref a', w') \<Rightarrow> heap w' ! a' = heap w3 ! a
                               \<and> fst (invokes (on a' calls) w') = fst (invokes (on a calls) w3)
               | (Decorator d, w') \<Rightarrow> False))))"
proof (intro conjI, goal_cases)
  case 1
  let ?oa = "LimitCallsObj (LimitCalls_init f T lg)"
  let ?ob = "LimitCallsObj (LimitCalls_init g T lg)"
  obtain w1 where w1: "LimitCalls None T lg w0 = (Decorator (\<lambda>f. new_LimitCalls f T lg), w1)"
      and h1: "heap w1 = heap w0"
    using LimitCalls_None [of T lg w0] by blast
  obtain w2 where w2: "new_LimitCalls f T lg w1 = (length (heap w0), w2)"
      and h2: "heap w2 = heap w0 @ [?oa]"
    by (simp add: new_LimitCalls_eq h1)
  obtain w3 where w3: "new_LimitCalls g T lg w2 = (Suc (length (heap w0)), w3)"
      and h3: "heap w3 = heap w0 @ [?oa, ?ob]"
    by (simp add: new_LimitCalls_eq h2)
  obtain w' where w': "LimitCalls (Some f) T lg w0 = (Ref (length (heap w0)), w')"
      and h': "heap w' = heap w0 @ [?oa]"
    using LimitCalls_Some [of f T lg w0] by blast
  have same: "fst (invokes (on (length (heap w0)) calls) w') = fst (invokes (on (length (heap w0)) calls) w3)"
    by (rule same_object_same_results) (simp_all add: h' h3)
  show ?case
    using two_wrappers [OF h3, of cs] same
    by (simp add: w1 w2 w3 w' h' h3 LimitCalls_init_def)
next
  case 2
  let ?oa = "WrapperObj (wrapper2_init T lg f)"
  let ?ob = "WrapperObj (wrapper2_init T lg g)"
  obtain w1 where w1: "LimitCalls2 None T lg w0 = (Decorator (forward_func_call T lg), w1)"
      and h1: "heap w1 = heap w0"
    using LimitCalls2_None [of T lg w0] by blast
  obtain w2 where w2: "forward_func_call T lg f w1 = (length (heap w0), w2)"
      and h2: "heap w2 = heap w0 @ [?oa]"
    using forward_func_call_eq [of T lg f w1] by (auto simp: h1)
  obtain w3 where w3: "forward_func_call T lg g w2 = (Suc (length (heap w0)), w3)"
      and h3: "heap w3 = heap w0 @ [?oa, ?ob]"
    using forward_func_call_eq [of T lg g w2] by (auto simp: h2)
  obtain w' where w': "LimitCalls2 (Some f) T lg w0 = (Ref (length (heap w0)), w')"
      and h': "heap w' = heap w0 @ [?oa]"
    using LimitCalls2_Some [of f T lg w0] by blast
  have same: "fst (invokes (on (length (heap w0)) calls) w') = fst (invokes (on (length (heap w0)) calls) w3)"
    by (rule same_object_same_results) (simp_all add: h' h3)
  show ?case
    using two_wrappers [OF h3, of cs] same
    by (simp add: w1 w2 w3 w' h' h3 wrapper2_init_def)
qed

section \<open>The counter and the limit\<close>


text \<open>
  Claim C4. A limiting wrapper raises its \<^verbatim>\<open>ValueError\<close> exactly when the counter, after
  the increment (the old counter plus one), is above \<^verbatim>\<open>max_hits\<close>. Above the limit the
  call raises the error whose message spells out the name of the wrapped function and the
  value of \<^verbatim>\<open>max_hits\<close>, prints nothing and does not enter the wrapped function.
  Within the limit the wrapper raises nothing of its own: either \<^verbatim>\<open>print\<close> refuses the
  logging line and its exception comes out, or the wrapped function is entered once, with
  the arguments of the call, and what it returns or raises is what the call returns or
  raises. So the limit error comes out of a call that has not entered the wrapped function
  if and only if the limit is exceeded.
\<close>

theorem limit_error_iff:
  "(lc_max_hits l < lc_num_calls l + 1 \<longrightarrow>
      LimitCalls_call l args kw =
        (Inl (ValueError (''function '' @ fn_name (lc_function l) @ '' number of call limit '' @
                          str_int (lc_max_hits l) @ '' has been exceeded'')),
         l\<lparr>lc_num_calls := lc_num_calls l + 1\<rparr>, []))
 \<and> (\<not> lc_max_hits l < lc_num_calls l + 1 \<longrightarrow>
      (case (if lc_log_calls l
             then py_print ([VStr ''Calling:'', VStr (fn_name (lc_function l)), VStr ''#call:'',
                             VInt (lc_num_calls l + 1), VStr ''positional-arguments:''] @ args @
                            [VStr ''keyword-arguments:'']) kw
             else Inr []) of
         Inl e \<Rightarrow> result (LimitCalls_call l args kw) = Inl e
                  \<and> trace (LimitCalls_call l args kw) = []
       | Inr line \<Rightarrow> result (LimitCalls_call l args kw) = fn_body (lc_function l) args kw
                  \<and> filter is_Invoked (trace (LimitCalls_call l args kw))
                      = [Invoked (fn_name (lc_function l)) args kw]))
 \<and> ((result (LimitCalls_call l args kw) =
        Inl (ValueError (''function '' @ fn_name (lc_function l) @ '' number of call limit '' @
                         str_int (lc_max_hits l) @ '' has been exceeded''))
      \<and> invocations (trace (LimitCalls_call l args kw)) = 0)
     \<longleftrightarrow> lc_max_hits l < lc_num_calls l + 1)
 \<and> lc_num_calls (after (LimitCalls_call l args kw)) = lc_num_calls l + 1
 \<and> (w_max_hits x < w_num_calls x + 1 \<longrightarrow>
      wrapper2_call x args kw =
        (Inl (ValueError (''function '' @ fn_name (w_func x) @ '' number of call limit '' @
                          str_int (w_max_hits x) @ '' has been exceeded'')),
         x\<lparr>w_num_calls := w_num_calls x + 1\<rparr>, []))
 \<and> (\<not> w_max_hits x < w_num_calls x + 1 \<longrightarrow>
      (case (if w_log_calls x
             then py_print ([VStr ''Calling:'', VStr (fn_name (w_func x)), VStr ''#call:'',
                             VInt (w_num_calls x + 1), VStr ''positional-arguments:''] @ args @
                            [VStr ''keyword-arguments:'']) kw
             else Inr []) of
         Inl e \<Rightarrow> result (wrapper2_call x args kw) = Inl e
                  \<and> trace (wrapper2_call x args kw) = []
       | Inr line \<Rightarrow> result (wrapper2_call x args kw) = fn_body (w_func x) args kw
                  \<and> filter is_Invoked (trace (wrapper2_call x args kw))
                      = [Invoked (fn_name (w_func x)) args kw]))
 \<and> ((result (wrapper2_call x args kw) =
        Inl (ValueError (''function '' @ fn_name (w_func x) @ '' number of call limit '' @
                         str_int (w_max_hits x) @ '' has been exceeded''))
      \<and> invocations (trace (wrapper2_call x args kw)) = 0)
     \<longleftrightarrow> w_max_hits x < w_num_calls x + 1)
 \<and> w_num_calls (after (wrapper2_call x args kw)) = w_num_calls x + 1"
proof -
  have l_over: "LimitCalls_call l args kw =
        (Inl (ValueError (''function '' @ fn_name (lc_function l) @ '' number of call limit '' @
                          str_int (lc_max_hits l) @ '' has been exceeded'')),
         l\<lparr>lc_num_calls := lc_num_calls l + 1\<rparr>, [])"
    if "lc_max_hits l < lc_num_calls l + 1"
    using LimitCalls_call_over [OF that, of args kw] by (simp add: limit_message_def)
  have l_within: "case (if lc_log_calls l
             then py_print ([VStr ''Calling:'', VStr (fn_name (lc_function l)), VStr ''#call:'',
                             VInt (lc_num_calls l + 1), VStr ''positional-arguments:''] @ args @
                            [VStr ''keyword-arguments:'']) kw
             else Inr []) of
         Inl e \<Rightarrow> result (LimitCalls_call l args kw) = Inl e
                  \<and> trace (LimitCalls_call l args kw) = []
       | Inr line \<Rightarrow> result (LimitCalls_call l args kw) = fn_body (lc_function l) args kw
                  \<and> filter is_Invoked (trace (LimitCalls_call l args kw))
                      = [Invoked (fn_name (lc_function l)) args kw]"
    if "\<not> lc_max_hits l < lc_num_calls l + 1"
    using that
    by (auto simp: LimitCalls_call_def Let_def py_print_no_keywords
             split: sum.splits dest!: py_print_one_line)
  have l_iff: "(result (LimitCalls_call l args kw) =
        Inl (ValueError (''function '' @ fn_name (lc_function l) @ '' number of call limit '' @
                         str_int (lc_max_hits l) @ '' has been exceeded''))
      \<and> invocations (trace (LimitCalls_call l args kw)) = 0)
     \<longleftrightarrow> lc_max_hits l < lc_num_calls l + 1"
  proof (cases "lc_max_hits l < lc_num_calls l + 1")
    case True
    then show ?thesis by (simp add: l_over)
  next
    case False
    have "\<not> rejected (LimitCalls_call l args kw)"
      using False by (rule LimitCalls_call_within)
    then show ?thesis using False by (auto simp: rejected_def)
  qed
  have x_over: "wrapper2_call x args kw =
        (Inl (ValueError (''function '' @ fn_name (w_func x) @ '' number of call limit '' @
                          str_int (w_max_hits x) @ '' has been exceeded'')),
         x\<lparr>w_num_calls := w_num_calls x + 1\<rparr>, [])"
    if "w_max_hits x < w_num_calls x + 1"
    using wrapper2_call_over [OF that, of args kw] by (simp add: limit_message_def)
  have x_within: "case (if w_log_calls x
             then py_print ([VStr ''Calling:'', VStr (fn_name (w_func x)), VStr ''#call:'',
                             VInt (w_num_calls x + 1), VStr ''positional-arguments:''] @ args @
                            [VStr ''keyword-arguments:'']) kw
             else Inr []) of
         Inl e \<Rightarrow> result (wrapper2_call x args kw) = Inl e
                  \<and> trace (wrapper2_call x args kw) = []
       | Inr line \<Rightarrow> result (wrapper2_call x args kw) = fn_body (w_func x) args kw
                  \<and> filter is_Invoked (trace (wrapper2_call x args kw))
                      = [Invoked (fn_name (w_func x)) args kw]"
    if "\<not> w_max_hits x < w_num_calls x + 1"
    using that
    by (auto simp: wrapper2_call_def Let_def py_print_no_keywords
             split: sum.splits dest!: py_print_one_line)
  have x_iff: "(result (wrapper2_call x args kw) =
        Inl (ValueError (''function '' @ fn_name (w_func x) @ '' number of call limit '' @
                         str_int (w_max_hits x) @ '' has been exceeded''))
      \<and> invocations (trace (wrapper2_call x args kw)) = 0)
     \<longleftrightarrow> w_max_hits x < w_num_calls x + 1"
  proof (cases "w_max_hits x < w_num_calls x + 1")
    case True
    then show ?thesis by (simp add: x_over)
  next
    case False
    have "\<not> rejected (wrapper2_call x args kw)"
      using False by (rule wrapper2_call_within)
    then show ?thesis using False by (auto simp: rejected_def)
  qed
  show ?thesis
    using l_over l_within l_iff x_over x_within x_iff
    by (simp add: LimitCalls_call_after wrapper2_call_after)
qed

text \<open>
  Claim C8. A call of a limiting wrapper changes the counter and nothing else:
  \<^verbatim>\<open>max_hits\<close>, \<^verbatim>\<open>log_calls\<close> and the wrapped function are as \<^verbatim>\<open>__init__\<close> (or the
  enclosing call) set them, after one call and after any sequence of calls, accepted
  or rejected.
\<close>

theorem call_changes_only_counter:
  "after (LimitCalls_call l args kw) = l\<lparr>lc_num_calls := lc_num_calls l + 1\<rparr>
 \<and> after (wrapper2_call x args kw) = x\<lparr>w_num_calls := w_num_calls x + 1\<rparr>
 \<and> lc_max_hits (after (run LimitCalls_call l calls)) = lc_max_hits l
 \<and> lc_log_calls (after (run LimitCalls_call l calls)) = lc_log_calls l
 \<and> lc_function (after (run LimitCalls_call l calls)) = lc_function l
 \<and> w_max_hits (after (run wrapper2_call x calls)) = w_max_hits x
 \<and> w_log_calls (after (run wrapper2_call x calls)) = w_log_calls x
 \<and> w_func (after (run wrapper2_call x calls)) = w_func x"
  by (simp add: LimitCalls_call_after wrapper2_call_after run_LimitCalls_after run_wrapper2_after)

text \<open>
  Claim C9. Whatever sequence of calls is made on a new limiting wrapper with
  \<^verbatim>\<open>max_hits = T\<close>, the wrapped function is entered at most \<open>T\<close> times (never, when
  \<open>T\<close> is negative). Once a call has been rejected, no later call enters the wrapped
  function and each one is rejected as well.
\<close>

theorem forwards_at_most_max_hits:
  "invocations (trace (run LimitCalls_call (LimitCalls_init f T lg) calls)) \<le> nat T
 \<and> invocations (trace (run wrapper2_call (wrapper2_init T lg f) calls)) \<le> nat T
 \<and> (rejected (LimitCalls_call l args kw) \<longrightarrow>
      invocations (trace (run LimitCalls_call (after (LimitCalls_call l args kw)) calls)) = 0
    \<and> rejected (LimitCalls_call (after (run LimitCalls_call (after (LimitCalls_call l args kw)) calls)) args' kw'))
 \<and> (rejected (wrapper2_call x args kw) \<longrightarrow>
      invocations (trace (run wrapper2_call (after (wrapper2_call x args kw)) calls)) = 0
    \<and> rejected (wrapper2_call (after (run wrapper2_call (after (wrapper2_call x args kw)) calls)) args' kw'))"
proof (intro conjI impI)
  show "invocations (trace (run LimitCalls_call (LimitCalls_init f T lg) calls)) \<le> nat T"
    using run_LimitCalls_invocations [of "LimitCalls_init f T lg" calls]
    by (simp add: LimitCalls_init_def)
  show "invocations (trace (run wrapper2_call (wrapper2_init T lg f) calls)) \<le> nat T"
    using run_wrapper2_invocations [of "wrapper2_init T lg f" calls]
    by (simp add: wrapper2_init_def)
next
  assume "rejected (LimitCalls_call l args kw)"
  then have over: "lc_max_hits l < lc_num_calls l + 1"
    by (simp add: LimitCalls_call_rejected_iff)
  show "invocations (trace (run LimitCalls_call (after (LimitCalls_call l args kw)) calls)) = 0"
    using run_LimitCalls_invocations [of "after (LimitCalls_call l args kw)" calls] over
    by (simp add: LimitCalls_call_after)
  show "rejected (LimitCalls_call (after (run LimitCalls_call (after (LimitCalls_call l args kw)) calls)) args' kw')"
    using over by (simp add: LimitCalls_call_rejected_iff run_LimitCalls_after LimitCalls_call_after)
next
  assume "rejected (wrapper2_call x args kw)"
  then have over: "w_max_hits x < w_num_calls x + 1"
    by (simp add: wrapper2_call_rejected_iff)
  show "invocations (trace (run wrapper2_call (after (wrapper2_call x args kw)) calls)) = 0"
    using run_wrapper2_invocations [of "after (wrapper2_call x args kw)" calls] over
    by (simp add: wrapper2_call_after)
  show "rejected (wrapper2_call (after (run wrapper2_call (after (wrapper2_call x args kw)) calls)) args' kw')"
    using over by (simp add: wrapper2_call_rejected_iff run_wrapper2_after wrapper2_call_after)
qed

text \<open>
  Claim C10. Right after it is built around a function, by \<^verbatim>\<open>CountCalls\<close>, by
  \<^verbatim>\<open>LimitCalls\<close> or by \<^verbatim>\<open>LimitCalls2\<close>, given the function at once or later, the
  wrapper has the \<^verbatim>\<open>__name__\<close> and the \<^verbatim>\<open>__doc__\<close> of the function and its counter
  is zero.
\<close>

theorem fresh_wrapper_attributes:
  "(case new_CountCalls f w of (a, w') \<Rightarrow> fresh_for f (heap w' ! a))
 \<and> (case LimitCalls (Some f) T lg w of
       (Ref a, w') \<Rightarrow> fresh_for f (heap w' ! a)
     | (Decorator d, w') \<Rightarrow> False)
 \<and> (case LimitCalls None T lg w of
       (Ref a, w1) \<Rightarrow> False
     | (Decorator d, w1) \<Rightarrow> (case d f w1 of (a, w') \<Rightarrow> fresh_for f (heap w' ! a)))
 \<and> (case LimitCalls2 (Some f) T lg w of
       (Ref a, w') \<Rightarrow> fresh_for f (heap w' ! a)
     | (Decorator d, w') \<Rightarrow> False)
 \<and> (case LimitCalls2 None T lg w of
       (Ref a, w1) \<Rightarrow> False
     | (Decorator d, w1) \<Rightarrow> (case d f w1 of (a, w') \<Rightarrow> fresh_for f (heap w' ! a)))"
  by (simp add: new_CountCalls_def LimitCalls_def LimitCalls2_def new_LimitCalls_def
                forward_func_call_def alloc_def print_line_def Let_def fresh_for_def
                CountCalls_init_def LimitCalls_init_def wrapper2_init_def)



section \<open>Forwarding, and keyword arguments under logging\<close>

text \<open>
  A call within the limit is forwarded and its result returned when nothing is logged,
  or when the call has no keyword arguments.
\<close>

lemma LimitCalls_call_forwards:
  assumes "lc_num_calls l < lc_max_hits l" "\<not> lc_log_calls l \<or> kw = []"
  shows "result (LimitCalls_call l args kw) = fn_body (lc_function l) args kw"
    and "invocations (trace (LimitCalls_call l args kw)) = 1"
  using assms
  by (auto simp: LimitCalls_call_def Let_def py_print_no_keywords split: sum.splits)

lemma wrapper2_call_forwards:
  assumes "w_num_calls x < w_max_hits x" "\<not> w_log_calls x \<or> kw = []"
  shows "result (wrapper2_call x args kw) = fn_body (w_func x) args kw"
    and "invocations (trace (wrapper2_call x args kw)) = 1"
  using assms
  by (auto simp: wrapper2_call_def Let_def py_print_no_keywords split: sum.splits)

lemma CountCalls_call_forwards:
  "result (CountCalls_call c args []) = fn_body (cc_func c) args []"
  "invocations (trace (CountCalls_call c args [])) = 1"
  by (auto simp: CountCalls_call_def Let_def py_print_no_keywords split: sum.splits)

lemma run_LimitCalls_forwards:
  assumes "lc_num_calls l + int (length calls) \<le> lc_max_hits l"
      and "\<not> lc_log_calls l \<or> list_all (\<lambda>c. snd c = []) calls"
  shows "result (run LimitCalls_call l calls) = map (\<lambda>(args, kw). fn_body (lc_function l) args kw) calls
       \<and> invocations (trace (run LimitCalls_call l calls)) = length calls"
  using assms
proof (induction calls arbitrary: l)
  case Nil
  show ?case by simp
next
  case (Cons c cs)
  obtain args kw where c: "c = (args, kw)" by (cases c)
  let ?l1 = "l\<lparr>lc_num_calls := lc_num_calls l + 1\<rparr>"
  have within: "lc_num_calls l < lc_max_hits l"
    using Cons.prems(1) by simp
  have plain: "\<not> lc_log_calls l \<or> kw = []"
    using Cons.prems(2) by (auto simp: c)
  have p1: "lc_num_calls ?l1 + int (length cs) \<le> lc_max_hits ?l1"
    using Cons.prems(1) by simp
  have p2: "\<not> lc_log_calls ?l1 \<or> list_all (\<lambda>c. snd c = []) cs"
    using Cons.prems(2) by auto
  show ?case
    using Cons.IH [OF p1 p2] LimitCalls_call_forwards [OF within plain, of args]
    by (simp add: c run_Cons LimitCalls_call_after)
qed

lemma first_calls_then_error:
  assumes "int (length calls) = T" and "\<not> lg \<or> list_all (\<lambda>c. snd c = []) calls"
  shows "result (run LimitCalls_call (LimitCalls_init f T lg) (calls @ [(args, kw)]))
           = map (\<lambda>(args, kw). fn_body f args kw) calls @ [Inl (ValueError (limit_message (fn_name f) T))]"
    and "lc_num_calls (after (run LimitCalls_call (LimitCalls_init f T lg) (calls @ [(args, kw)]))) = T + 1"
    and "invocations (trace (run LimitCalls_call (LimitCalls_init f T lg) (calls @ [(args, kw)]))) = length calls"
proof -
  let ?l = "LimitCalls_init f T lg"
  have fw: "result (run LimitCalls_call ?l calls) = map (\<lambda>(args, kw). fn_body (lc_function ?l) args kw) calls
          \<and> invocations (trace (run LimitCalls_call ?l calls)) = length calls"
    using assms by (intro run_LimitCalls_forwards) (simp_all add: LimitCalls_init_def)
  have over: "lc_max_hits (after (run LimitCalls_call ?l calls)) < lc_num_calls (after (run LimitCalls_call ?l calls)) + 1"
    using assms by (simp add: run_LimitCalls_after LimitCalls_init_def)
  show "result (run LimitCalls_call ?l (calls @ [(args, kw)]))
           = map (\<lambda>(args, kw). fn_body f args kw) calls @ [Inl (ValueError (limit_message (fn_name f) T))]"
    using fw by (simp add: run_append run_Cons LimitCalls_call_over [OF over])
                (simp add: run_LimitCalls_after LimitCalls_init_def)
  show "lc_num_calls (after (run LimitCalls_call ?l (calls @ [(args, kw)]))) = T + 1"
    using assms by (simp add: run_LimitCalls_after LimitCalls_init_def)
  show "invocations (trace (run LimitCalls_call ?l (calls @ [(args, kw)]))) = length calls"
    using fw by (simp add: run_append run_Cons LimitCalls_call_over [OF over])
qed

lemma run_CountCalls_forwards:
  assumes "list_all (\<lambda>c. snd c = []) calls"
  shows "result (run CountCalls_call c calls) = map (\<lambda>(args, kw). fn_body (cc_func c) args kw) calls"
  using assms
proof (induction calls arbitrary: c)
  case Nil
  show ?case by simp
next
  case (Cons d ds)
  obtain args where d: "d = (args, [])" using Cons.prems by (cases d) simp
  have rest: "result (run CountCalls_call (c\<lparr>cc_num_calls := cc_num_calls c + 1\<rparr>) ds)
                = map (\<lambda>(args, kw). fn_body (cc_func (c\<lparr>cc_num_calls := cc_num_calls c + 1\<rparr>)) args kw) ds"
    using Cons.prems by (intro Cons.IH) simp
  show ?case
    using rest by (simp add: d run_Cons CountCalls_call_after CountCalls_call_forwards)
qed

lemma LimitCalls_call_logged_lines:
  assumes "lc_log_calls l" "result (LimitCalls_call l args kw) = Inr v"
  shows "\<exists>sep en. trace (LimitCalls_call l args kw) =
           [Printed ([VStr ''Calling:'', VStr (fn_name (lc_function l)), VStr ''#call:'',
                      VInt (lc_num_calls l + 1), VStr ''positional-arguments:''] @ args @
                     [VStr ''keyword-arguments:'']) sep en,
            Invoked (fn_name (lc_function l)) args kw,
            Printed [VStr ''Return from:'', VStr (fn_name (lc_function l)), VStr ''#call:'',
                     VInt (lc_num_calls l + 1), VStr ''return-value:'', v] '' '' [CHR 0x0A]]"
  using assms
  by (auto simp: LimitCalls_call_def Let_def py_print_no_keywords
           split: sum.splits if_splits dest!: py_print_one_line)

lemmas eval_defs =
  LimitCalls_call_def wrapper2_call_def CountCalls_call_def LimitCalls_init_def wrapper2_init_def
  CountCalls_init_def square_me_def inc_me_def line_end_def py_print_def print_opt_def
  print_keywords_def limit_message_def str_int_def str_nat.simps digit_char_def Let_def
  default_max_hits_def default_log_calls_def run.simps


text \<open>
  Claim C1 says that each of the first \<open>T\<close> calls of a limiting wrapper forwards to the
  wrapped function and returns its result. With \<^verbatim>\<open>log_calls\<close> set, the wrapper hands
  the caller's keyword arguments to \<^verbatim>\<open>print\<close> as keywords of \<^verbatim>\<open>print\<close>: the first
  call \<^verbatim>\<open>square_me(arg_num=2)\<close> of a wrapper with \<^verbatim>\<open>max_hits=3\<close> raises
  \<^verbatim>\<open>TypeError\<close> and never enters \<^verbatim>\<open>square_me\<close>, which would have returned 4.
\<close>

theorem logged_keyword_call_raises:
  "LimitCalls_call (LimitCalls_init square_me 3 True) [] [(''arg_num'', VInt 2)]
     = (Inl (TypeError ''arg_num''), (LimitCalls_init square_me 3 True)\<lparr>lc_num_calls := 1\<rparr>, [])
 \<and> wrapper2_call (wrapper2_init 3 True square_me) [] [(''arg_num'', VInt 2)]
     = (Inl (TypeError ''arg_num''), (wrapper2_init 3 True square_me)\<lparr>w_num_calls := 1\<rparr>, [])
 \<and> fn_body square_me [] [(''arg_num'', VInt 2)] = Inr (VInt 4)"
  by (simp add: eval_defs)

text \<open>
  Claim C3 says that every call of a \<^verbatim>\<open>CountCalls\<close> wrapper, with any positional and
  keyword arguments, forwards them and returns what the wrapped function returns.
  \<^verbatim>\<open>CountCalls.__call__\<close> always logs, and passes \<^verbatim>\<open>**kwargs\<close> on to \<^verbatim>\<open>print\<close>: the
  call \<^verbatim>\<open>inc_me(number_argument=1)\<close> raises \<^verbatim>\<open>TypeError\<close> before \<^verbatim>\<open>inc_me\<close> is
  entered, which would have returned 2. The counter is 1 all the same.
\<close>

theorem CountCalls_keyword_call_raises:
  "CountCalls_call (CountCalls_init inc_me) [] [(''number_argument'', VInt 1)]
     = (Inl (TypeError ''number_argument''), (CountCalls_init inc_me)\<lparr>cc_num_calls := 1\<rparr>, [])
 \<and> fn_body inc_me [] [(''number_argument'', VInt 1)] = Inr (VInt 2)"
  by (simp add: eval_defs)

text \<open>
  Claim C6 says that a logged call that succeeds prints one line before, with the name,
  the call index and the positional and keyword arguments, and one line after. For the
  call \<^verbatim>\<open>line_end(end='!')\<close> through a logging wrapper both lines are printed and the
  call returns, but the line before does not show the keyword argument: \<^verbatim>\<open>print\<close> has
  taken it for its own line end.
\<close>

theorem logged_line_omits_keywords:
  "LimitCalls_call (LimitCalls_init line_end 3 True) [] [(''end'', VStr ''!'')]
     = (Inr (VStr ''!''), (LimitCalls_init line_end 3 True)\<lparr>lc_num_calls := 1\<rparr>,
        [Printed [VStr ''Calling:'', VStr ''line_end'', VStr ''#call:'', VInt 1,
                  VStr ''positional-arguments:'', VStr ''keyword-arguments:''] '' '' ''!'',
         Invoked ''line_end'' [] [(''end'', VStr ''!'')],
         Printed [VStr ''Return from:'', VStr ''line_end'', VStr ''#call:'', VInt 1,
                  VStr ''return-value:'', VStr ''!''] '' '' [CHR 0x0A]])"
  by (simp add: eval_defs)

section \<open>The theorems at work on the functions of the walkthrough\<close>

lemmas heap_defs =
  LimitCalls_def LimitCalls2_def new_LimitCalls_def new_CountCalls_def forward_func_call_def
  alloc_def print_line_def empty_world_def fresh_for_def calls_to_def on_def


theorem limit_error_iff_witness:
  "LimitCalls_call ((LimitCalls_init square_me 3 False)\<lparr>lc_num_calls := 3\<rparr>) [VInt 5] []
     = (Inl (ValueError ''function square_me number of call limit 3 has been exceeded''),
        (LimitCalls_init square_me 3 False)\<lparr>lc_num_calls := 4\<rparr>, [])
 \<and> result (LimitCalls_call ((LimitCalls_init square_me 3 False)\<lparr>lc_num_calls := 2\<rparr>) [VInt 4] [])
     = Inr (VInt 16)
 \<and> filter is_Invoked (trace (LimitCalls_call ((LimitCalls_init square_me 3 False)\<lparr>lc_num_calls := 2\<rparr>) [VInt 4] []))
     = [Invoked ''square_me'' [VInt 4] []]
 \<and> result (LimitCalls_call (LimitCalls_init square_me 3 True) [] [(''arg_num'', VInt 2)])
     = Inl (TypeError ''arg_num'')
 \<and> wrapper2_call ((wrapper2_init 3 False square_me)\<lparr>w_num_calls := 3\<rparr>) [VInt 5] []
     = (Inl (ValueError ''function square_me number of call limit 3 has been exceeded''),
        (wrapper2_init 3 False square_me)\<lparr>w_num_calls := 4\<rparr>, [])
 \<and> result (wrapper2_call ((wrapper2_init 3 False square_me)\<lparr>w_num_calls := 2\<rparr>) [VInt 4] [])
     = Inr (VInt 16)
 \<and> filter is_Invoked (trace (wrapper2_call ((wrapper2_init 3 False square_me)\<lparr>w_num_calls := 2\<rparr>) [VInt 4] []))
     = [Invoked ''square_me'' [VInt 4] []]
 \<and> result (wrapper2_call (wrapper2_init 3 True square_me) [] [(''arg_num'', VInt 2)])
     = Inl (TypeError ''arg_num'')"
proof -
  let ?l3 = "(LimitCalls_init square_me 3 False)\<lparr>lc_num_calls := 3\<rparr>"
  let ?l2 = "(LimitCalls_init square_me 3 False)\<lparr>lc_num_calls := 2\<rparr>"
  let ?lp = "LimitCalls_init square_me 3 True"
  let ?x3 = "(wrapper2_init 3 False square_me)\<lparr>w_num_calls := 3\<rparr>"
  let ?x2 = "(wrapper2_init 3 False square_me)\<lparr>w_num_calls := 2\<rparr>"
  let ?xp = "wrapper2_init 3 True square_me"
  have over: "lc_max_hits ?l3 < lc_num_calls ?l3 + 1" "w_max_hits ?x3 < w_num_calls ?x3 + 1"
    by (simp_all add: LimitCalls_init_def wrapper2_init_def)
  have within: "\<not> lc_max_hits ?l2 < lc_num_calls ?l2 + 1" "\<not> w_max_hits ?x2 < w_num_calls ?x2 + 1"
               "\<not> lc_max_hits ?lp < lc_num_calls ?lp + 1" "\<not> w_max_hits ?xp < w_num_calls ?xp + 1"
    by (simp_all add: LimitCalls_init_def wrapper2_init_def)
  show ?thesis
    using limit_error_iff [where l = ?l3 and x = ?x3 and args = "[VInt 5]" and kw = "[]"]
          limit_error_iff [where l = ?l2 and x = ?x2 and args = "[VInt 4]" and kw = "[]"]
          limit_error_iff [where l = ?lp and x = ?xp and args = "[]" and kw = "[(''arg_num'', VInt 2)]"]
          over within
    by (simp add: LimitCalls_init_def wrapper2_init_def square_me_def py_print_def print_opt_def
                  print_keywords_def str_int_def str_nat.simps digit_char_def)
qed

theorem call_changes_only_counter_witness:
  "after (LimitCalls_call (LimitCalls_init square_me 3 True) [VInt 2] [])
     = \<lparr>lc_name = ''square_me'', lc_doc = Some '' return a square of the argument '',
        lc_function = square_me, lc_max_hits = 3, lc_log_calls = True, lc_num_calls = 1\<rparr>
 \<and> lc_max_hits (after (run LimitCalls_call (LimitCalls_init square_me 3 True)
                         [([VInt 2], []), ([VInt 3], []), ([VInt 4], []), ([VInt 5], [])])) = 3"
  using call_changes_only_counter [where l = "LimitCalls_init square_me 3 True"
          and args = "[VInt 2]" and kw = "[]" and x = "wrapper2_init 3 True square_me"
          and calls = "[([VInt 2], []), ([VInt 3], []), ([VInt 4], []), ([VInt 5], [])]"]
  by (simp add: LimitCalls_init_def square_me_def)

theorem forwards_at_most_max_hits_witness:
  "invocations (trace (run LimitCalls_call (LimitCalls_init square_me 3 False)
       [([VInt 2], []), ([VInt 3], []), ([VInt 4], []), ([VInt 5], []), ([VInt 6], [])])) \<le> 3
 \<and> rejected (LimitCalls_call ((LimitCalls_init square_me 3 False)\<lparr>lc_num_calls := 3\<rparr>) [VInt 5] [])
 \<and> rejected (LimitCalls_call
       (after (run LimitCalls_call
                 (after (LimitCalls_call ((LimitCalls_init square_me 3 False)\<lparr>lc_num_calls := 3\<rparr>) [VInt 5] []))
                 [([VInt 6], []), ([VInt 7], [])]))
       [VInt 8] [])
 \<and> rejected (wrapper2_call ((wrapper2_init 3 False square_me)\<lparr>w_num_calls := 3\<rparr>) [VInt 5] [])
 \<and> rejected (wrapper2_call
       (after (run wrapper2_call
                 (after (wrapper2_call ((wrapper2_init 3 False square_me)\<lparr>w_num_calls := 3\<rparr>) [VInt 5] []))
                 [([VInt 6], []), ([VInt 7], [])]))
       [VInt 8] [])"
proof -
  let ?l = "(LimitCalls_init square_me 3 False)\<lparr>lc_num_calls := 3\<rparr>"
  let ?x = "(wrapper2_init 3 False square_me)\<lparr>w_num_calls := 3\<rparr>"
  have rl: "rejected (LimitCalls_call ?l [VInt 5] [])"
    by (simp add: eval_defs rejected_def)
  have rx: "rejected (wrapper2_call ?x [VInt 5] [])"
    by (simp add: eval_defs rejected_def)
  show ?thesis
    using forwards_at_most_max_hits [where f = square_me and T = 3 and lg = False
            and calls = "[([VInt 2], []), ([VInt 3], []), ([VInt 4], []), ([VInt 5], []), ([VInt 6], [])]"
            and l = ?l and args = "[VInt 5]" and kw = "[]" and args' = "[VInt 8]" and kw' = "[]"
            and x = ?x]
          forwards_at_most_max_hits [where f = square_me and T = 3 and lg = False
            and calls = "[([VInt 6], []), ([VInt 7], [])]"
            and l = ?l and args = "[VInt 5]" and kw = "[]" and args' = "[VInt 8]" and kw' = "[]"
            and x = ?x] rl rx
    by simp
qed

theorem fresh_wrapper_attributes_witness:
  "(case LimitCalls (Some square_me) 3 False empty_world of
      (Ref a, w') \<Rightarrow> obj_name (heap w' ! a) = ''square_me''
                     \<and> obj_doc (heap w' ! a) = Some '' return a square of the argument ''
                     \<and> obj_num_calls (heap w' ! a) = 0
    | (Decorator d, w') \<Rightarrow> False)
 \<and> (case LimitCalls2 None 2 True empty_world of
      (Ref a, w1) \<Rightarrow> False
    | (Decorator d, w1) \<Rightarrow>
        (case d inc_me w1 of (a, w') \<Rightarrow>
           obj_name (heap w' ! a) = ''inc_me'' \<and> obj_doc (heap w' ! a) = None
           \<and> obj_num_calls (heap w' ! a) = 0))"
  using fresh_wrapper_attributes [where f = square_me and w = empty_world and T = 3 and lg = False]
        fresh_wrapper_attributes [where f = inc_me and w = empty_world and T = 2 and lg = True]
  by (simp add: heap_defs Let_def square_me_def inc_me_def)


theorem decorators_are_independent_witness:
  "(case LimitCalls None 4 True empty_world of
      (Ref r, w1) \<Rightarrow> False
    | (Decorator deco, w1) \<Rightarrow>
        (case deco square_me w1 of (a, w2) \<Rightarrow>
           (case deco inc_me w2 of (b, w3) \<Rightarrow>
              a = 0 \<and> b = 1
            \<and> num_calls (snd (invokes [(0, [VInt 2], []), (1, [VInt 1], []), (0, [VInt 3], [])] w3)) a = 2
            \<and> num_calls (snd (invokes [(0, [VInt 2], []), (1, [VInt 1], []), (0, [VInt 3], [])] w3)) b = 1)))"
  using decorators_are_independent [where T = 4 and lg = True and ?w0.0 = empty_world
          and f = square_me and g = inc_me
          and cs = "[(0, [VInt 2], []), (1, [VInt 1], []), (0, [VInt 3], [])]" and calls = "[]"]
  by (simp add: heap_defs Let_def)

end
